theory Spec2Isabelle
  imports Main "HOL-Library.Word"
begin

section \<open>Values, parameters and options\<close>

text \<open>
  A registered value is a Go \<^verbatim>\<open>interface{}\<close>. Three shapes matter to the router: the nil
  interface, a value of the caller, and the package's own \<^verbatim>\<open>matchValue{matchedPath, Value}\<close>
  wrapper, which the type assertion \<^verbatim>\<open>value.(matchValue)\<close> recognises.
\<close>

datatype 'a iface = NilValue | UserValue 'a | MatchValue string "'a iface"

datatype Param = Param (Key: string) (Value: string)

type_synonym Params = "Param list"

text \<open>\<^verbatim>\<open>Params.Param\<close>: the loop over the slice, returning at the first key that matches.\<close>

fun Params_Param :: "Params \<Rightarrow> string \<Rightarrow> string" where
  "Params_Param [] name = []"
| "Params_Param (p # ps) name = (if Key p = name then Value p else Params_Param ps name)"

definition MatchedRoutePathParam :: string where
  "MatchedRoutePathParam = ''$matchedRoutePath''"

definition Params_MatchedRoutePath :: "Params \<Rightarrow> string" where
  "Params_MatchedRoutePath ps = Params_Param ps MatchedRoutePathParam"

text \<open>
  A \<^verbatim>\<open>Params\<close> result can be the nil slice, which the tests tell apart from a slice with
  elements: it is \<open>None\<close> here. Ranging over the nil slice visits nothing.
\<close>

fun slice :: "Params option \<Rightarrow> Params" where
  "slice None = []"
| "slice (Some ps) = ps"

record Options =
  saveMatchedRoutePath :: bool
  redirectTrailingSlash :: bool
  redirectFixedPath :: bool

text \<open>
  An \<^verbatim>\<open>Option\<close> is a function on \<^verbatim>\<open>*Options\<close>. \<^verbatim>\<open>Router\<close> and \<^verbatim>\<open>Pattern\<close> embed
  \<^verbatim>\<open>Options\<close>, so the records below extend \<open>Options\<close> and an option applies to them as it is.
\<close>

definition WithDisableRedirectTrailingSlash :: "'z Options_scheme \<Rightarrow> 'z Options_scheme" where
  "WithDisableRedirectTrailingSlash r = r\<lparr>redirectTrailingSlash := False\<rparr>"

definition WithDisableRedirectFixedPath :: "'z Options_scheme \<Rightarrow> 'z Options_scheme" where
  "WithDisableRedirectFixedPath r = r\<lparr>redirectFixedPath := False\<rparr>"

definition WithSaveMatchedRoutePath :: "'z Options_scheme \<Rightarrow> 'z Options_scheme" where
  "WithSaveMatchedRoutePath r = r\<lparr>saveMatchedRoutePath := True\<rparr>"

section \<open>The tree engine as a parameter\<close>

text \<open>
  \<^verbatim>\<open>router.go\<close> and \<^verbatim>\<open>pattern.go\<close> call five functions of the package that are defined in
  other files (\<^verbatim>\<open>node.addRoute\<close>, \<^verbatim>\<open>node.getValue\<close>, \<^verbatim>\<open>node.findCaseInsensitivePath\<close>,
  \<^verbatim>\<open>countParams\<close>, \<^verbatim>\<open>CleanPath\<close>) and allocate nodes with \<^verbatim>\<open>new(node)\<close>. The router
  functions below take them as an engine \<open>E\<close> over an arbitrary node type \<open>'n\<close>; every
  theorem about the router that quantifies over \<open>E\<close> holds whatever the tree does.

  \<^item> \<open>addRoute E path value n\<close> is \<^verbatim>\<open>n.addRoute(path, value)\<close>: the node after the insertion,
    or the message of the panic.
  \<^item> \<open>getValue E n path pn\<close> is \<^verbatim>\<open>n.getValue(path, pn)\<close>: value, \<^verbatim>\<open>*Params\<close> (nil is
    \<open>None\<close>) and the trailing-slash flag. \<open>pn\<close> is the allocator argument: \<open>None\<close> for
    nil, \<open>Some c\<close> for the router's closure, which makes a slice of capacity \<open>c\<close>.
  \<^item> \<open>findCaseInsensitivePath E n path fixTrailingSlash\<close> returns the corrected path and
    whether one was found.
  \<^item> \<open>countParams E path\<close> is a \<^verbatim>\<open>uint16\<close>: \<^verbatim>\<open>Router.Add\<close> adds it to a \<^verbatim>\<open>uint16\<close> and compares
    the sum with the \<^verbatim>\<open>uint16\<close> field \<^verbatim>\<open>maxParams\<close>.
\<close>

record ('n, 'a) engine =
  newNode :: 'n
  addRoute :: "string \<Rightarrow> 'a iface \<Rightarrow> 'n \<Rightarrow> string + 'n"
  getValue :: "'n \<Rightarrow> string \<Rightarrow> 16 word option \<Rightarrow> 'a iface \<times> Params option \<times> bool"
  findCaseInsensitivePath :: "'n \<Rightarrow> string \<Rightarrow> bool \<Rightarrow> string \<times> bool"
  countParams :: "string \<Rightarrow> 16 word"
  CleanPath :: "string \<Rightarrow> string"

section \<open>Router\<close>

text \<open>
  \<^verbatim>\<open>paramsNew\<close> is either nil or the closure that \<^verbatim>\<open>Add\<close> installs once; the closure reads
  \<^verbatim>\<open>r.maxParams\<close> when it is called, so the field only records whether it is set.
\<close>

record 'n Router = Options +
  trees :: "string \<rightharpoonup> 'n"
  paramsNew :: bool
  maxParams :: "16 word"

definition paramsNewOf :: "'n Router \<Rightarrow> 16 word option" where
  "paramsNewOf r = (if paramsNew r then Some (maxParams r) else None)"

text \<open>A panic is a value: one constructor for each \<^verbatim>\<open>panic\<close> call of the two files, and
  one for a panic raised inside \<^verbatim>\<open>addRoute\<close>.\<close>

datatype panic =
    MethodEmpty
  | PathNoSlash string
  | ValueNil
  | NotMatchValue
  | TreePanic string

definition New :: "('n Router \<Rightarrow> 'n Router) list \<Rightarrow> 'n Router" where
  "New opts =
     foldl (\<lambda>r opt. opt r)
       \<lparr>saveMatchedRoutePath = False, redirectTrailingSlash = True, redirectFixedPath = True,
        trees = Map.empty, paramsNew = False, maxParams = 0\<rparr>
       opts"

definition Add ::
  "('n, 'a) engine \<Rightarrow> 'n Router \<Rightarrow> string \<Rightarrow> string \<Rightarrow> 'a iface \<Rightarrow> panic + 'n Router" where
  "Add E r method path v =
     (if method = [] then Inl MethodEmpty
      else if length path < 1 \<or> hd path \<noteq> CHR ''/'' then Inl (PathNoSlash path)
      else if v = NilValue then Inl ValueNil
      else
        let v' = (if saveMatchedRoutePath r then MatchValue path v else v);
            varsCount = (if saveMatchedRoutePath r then 1 else 0 :: 16 word);
            root = (case trees r method of None \<Rightarrow> newNode E | Some n \<Rightarrow> n)
        in case addRoute E path v' root of
             Inl msg \<Rightarrow> Inl (TreePanic msg)
           | Inr root' \<Rightarrow>
               let paramsCount = countParams E path;
                   mp = (if paramsCount + varsCount > maxParams r
                         then paramsCount + varsCount else maxParams r)
               in Inr (r\<lparr>trees := (trees r)(method \<mapsto> root'),
                         paramsNew := (paramsNew r \<or> mp > 0),
                         maxParams := mp\<rparr>))"

text \<open>The verb shortcuts, and \<^verbatim>\<open>Any\<close>, which chains nine registrations; a panic ends the chain.\<close>

definition GET :: "('n, 'a) engine \<Rightarrow> 'n Router \<Rightarrow> string \<Rightarrow> 'a iface \<Rightarrow> panic + 'n Router" where
  "GET E r path v = Add E r ''GET'' path v"

definition HEAD :: "('n, 'a) engine \<Rightarrow> 'n Router \<Rightarrow> string \<Rightarrow> 'a iface \<Rightarrow> panic + 'n Router" where
  "HEAD E r path v = Add E r ''HEAD'' path v"

definition OPTIONS :: "('n, 'a) engine \<Rightarrow> 'n Router \<Rightarrow> string \<Rightarrow> 'a iface \<Rightarrow> panic + 'n Router" where
  "OPTIONS E r path v = Add E r ''OPTIONS'' path v"

definition POST :: "('n, 'a) engine \<Rightarrow> 'n Router \<Rightarrow> string \<Rightarrow> 'a iface \<Rightarrow> panic + 'n Router" where
  "POST E r path v = Add E r ''POST'' path v"

definition PUT :: "('n, 'a) engine \<Rightarrow> 'n Router \<Rightarrow> string \<Rightarrow> 'a iface \<Rightarrow> panic + 'n Router" where
  "PUT E r path v = Add E r ''PUT'' path v"

definition PATCH :: "('n, 'a) engine \<Rightarrow> 'n Router \<Rightarrow> string \<Rightarrow> 'a iface \<Rightarrow> panic + 'n Router" where
  "PATCH E r path v = Add E r ''PATCH'' path v"

definition DELETE :: "('n, 'a) engine \<Rightarrow> 'n Router \<Rightarrow> string \<Rightarrow> 'a iface \<Rightarrow> panic + 'n Router" where
  "DELETE E r path v = Add E r ''DELETE'' path v"

fun thenAdd ::
  "('n, 'a) engine \<Rightarrow> panic + 'n Router \<Rightarrow> string \<Rightarrow> string \<Rightarrow> 'a iface \<Rightarrow> panic + 'n Router" where
  "thenAdd E (Inl e) method path v = Inl e"
| "thenAdd E (Inr r) method path v = Add E r method path v"

definition Any :: "('n, 'a) engine \<Rightarrow> 'n Router \<Rightarrow> string \<Rightarrow> 'a iface \<Rightarrow> panic + 'n Router" where
  "Any E r path v =
     thenAdd E (thenAdd E (thenAdd E (thenAdd E (thenAdd E (thenAdd E (thenAdd E (thenAdd E
       (Add E r ''GET'' path v)
       ''POST'' path v) ''PUT'' path v) ''PATCH'' path v) ''HEAD'' path v)
       ''OPTIONS'' path v) ''DELETE'' path v) ''CONNECT'' path v) ''TRACE'' path v"

type_synonym 'a result = "'a iface \<times> Params option \<times> bool"

text \<open>
  \<^verbatim>\<open>Lookup\<close> has a pointer receiver. The model returns the router as the call leaves it
  next to the result: no statement of \<^verbatim>\<open>Lookup\<close> assigns a field, and reading
  \<^verbatim>\<open>r.trees[method]\<close> of a nil or empty map yields nil and stores nothing. Whether
  \<^verbatim>\<open>getValue\<close> writes to the node it walks is not visible in these two files; the
  engine's \<open>getValue\<close> is a function of the node.
\<close>

definition Lookup ::
  "('n, 'a) engine \<Rightarrow> 'n Router \<Rightarrow> string \<Rightarrow> string \<Rightarrow> 'a result \<times> 'n Router" where
  "Lookup E r method path =
     (case trees r method of
        Some root \<Rightarrow>
          (case getValue E root path (paramsNewOf r) of
             (v, ps, tsr) \<Rightarrow>
               if v = NilValue then ((NilValue, None, tsr), r)
               else if ps = None then ((v, None, tsr), r)
               else ((v, ps, tsr), r))
      | None \<Rightarrow> ((NilValue, None, False), r))"

text \<open>The slash toggle of \<^verbatim>\<open>match\<close> and \<^verbatim>\<open>Pattern.MatchURL\<close>.\<close>

definition toggleSlash :: "string \<Rightarrow> string" where
  "toggleSlash path =
     (if length path > 1 \<and> last path = CHR ''/'' then butlast path else path @ ''/'')"

text \<open>
  \<^verbatim>\<open>match\<close> calls \<^verbatim>\<open>r.Match\<close> on the rewritten path, which calls \<^verbatim>\<open>match\<close> again: nothing in
  the two functions bounds the recursion. The model counts invocations of \<^verbatim>\<open>match\<close> with
  a fuel argument: \<open>None\<close> says that the fuel did not suffice, \<open>Some (Inl p)\<close> is a panic,
  \<open>Some (Inr res)\<close> the returned triple. The recursive call goes through \<^verbatim>\<open>Match\<close>, so it
  passes \<^verbatim>\<open>r.paramsNew\<close> whatever allocator the caller gave.
\<close>

fun match ::
  "('n, 'a) engine \<Rightarrow> 'n Router \<Rightarrow> nat \<Rightarrow> 16 word option \<Rightarrow> string \<Rightarrow> string \<Rightarrow>
     (panic + 'a result) option" where
  "match E r 0 pn method path = None"
| "match E r (Suc fuel) pn method path =
     (case trees r method of
        None \<Rightarrow> Some (Inr (NilValue, None, False))
      | Some root \<Rightarrow>
          (case getValue E root path pn of
             (v, ps, tsr) \<Rightarrow>
               if v \<noteq> NilValue then
                 (if saveMatchedRoutePath r then
                    (case v of
                       MatchValue mp vv \<Rightarrow>
                         (case ps of
                            None \<Rightarrow> Some (Inr (vv, Some [Param MatchedRoutePathParam mp], True))
                          | Some l \<Rightarrow>
                              Some (Inr (vv, Some (l @ [Param MatchedRoutePathParam mp]), True)))
                     | _ \<Rightarrow> Some (Inl NotMatchValue))
                  else
                    (case ps of
                       None \<Rightarrow> Some (Inr (v, None, True))
                     | Some l \<Rightarrow> Some (Inr (v, Some l, True))))
               else if method \<noteq> ''CONNECT'' \<and> path \<noteq> ''/'' then
                 (if tsr \<and> redirectTrailingSlash r then
                    match E r fuel (paramsNewOf r) method (toggleSlash path)
                  else if redirectFixedPath r then
                    (case findCaseInsensitivePath E root (CleanPath E path)
                            (redirectTrailingSlash r) of
                       (fixedPath, found) \<Rightarrow>
                         if found then match E r fuel (paramsNewOf r) method fixedPath
                         else Some (Inr (NilValue, None, False)))
                  else Some (Inr (NilValue, None, False)))
               else Some (Inr (NilValue, None, False))))"

definition Match ::
  "('n, 'a) engine \<Rightarrow> 'n Router \<Rightarrow> nat \<Rightarrow> string \<Rightarrow> string \<Rightarrow> (panic + 'a result) option" where
  "Match E r fuel method path = match E r fuel (paramsNewOf r) method path"

definition MatchURL ::
  "('n, 'a) engine \<Rightarrow> 'n Router \<Rightarrow> nat \<Rightarrow> string \<Rightarrow> string \<Rightarrow>
     (panic + 'a iface \<times> string \<times> bool) option" where
  "MatchURL E r fuel method path =
     (case match E r fuel None method path of
        None \<Rightarrow> None
      | Some (Inl e) \<Rightarrow> Some (Inl e)
      | Some (Inr (v, params, matched)) \<Rightarrow>
          Some (Inr (v, Params_MatchedRoutePath (slice params), matched)))"

section \<open>Pattern\<close>

record 'n Pattern = Options +
  root :: 'n

definition NewPattern :: "('n, 'a) engine \<Rightarrow> ('n Pattern \<Rightarrow> 'n Pattern) list \<Rightarrow> 'n Pattern" where
  "NewPattern E opts =
     foldl (\<lambda>r opt. opt r)
       \<lparr>saveMatchedRoutePath = False, redirectTrailingSlash = True, redirectFixedPath = True,
        root = newNode E\<rparr>
       opts"

definition Pattern_Add ::
  "('n, 'a) engine \<Rightarrow> 'n Pattern \<Rightarrow> string \<Rightarrow> 'a iface \<Rightarrow> panic + 'n Pattern" where
  "Pattern_Add E r path v =
     (if length path < 1 \<or> hd path \<noteq> CHR ''/'' then Inl (PathNoSlash path)
      else if v = NilValue then Inl ValueNil
      else
        let v' = (if saveMatchedRoutePath r then MatchValue path v else v)
        in case addRoute E path v' (root r) of
             Inl msg \<Rightarrow> Inl (TreePanic msg)
           | Inr root' \<Rightarrow> Inr (r\<lparr>root := root'\<rparr>))"

fun Pattern_MatchURL ::
  "('n, 'a) engine \<Rightarrow> 'n Pattern \<Rightarrow> nat \<Rightarrow> string \<Rightarrow> (panic + 'a iface \<times> string \<times> bool) option" where
  "Pattern_MatchURL E r 0 path = None"
| "Pattern_MatchURL E r (Suc fuel) path =
     (case getValue E (root r) path None of
        (v, ps, tsr) \<Rightarrow>
          if v \<noteq> NilValue then
            (if saveMatchedRoutePath r then
               (case v of
                  MatchValue mp vv \<Rightarrow> Some (Inr (vv, mp, True))
                | _ \<Rightarrow> Some (Inl NotMatchValue))
             else Some (Inr (v, [], True)))
          else if path \<noteq> ''/'' then
            (if tsr \<and> redirectTrailingSlash r then Pattern_MatchURL E r fuel (toggleSlash path)
             else if redirectFixedPath r then
               (case findCaseInsensitivePath E (root r) (CleanPath E path)
                       (redirectTrailingSlash r) of
                  (fixedPath, found) \<Rightarrow>
                    if found then Pattern_MatchURL E r fuel fixedPath
                    else Some (Inr (NilValue, [], False)))
             else Some (Inr (NilValue, [], False)))
          else Some (Inr (NilValue, [], False)))"

section \<open>A tree engine after the specification\<close>

text \<open>
  Modelled from the spec: the trie node of \<^verbatim>\<open>tree.go\<close>, which is not among the sources at hand
  (section 3 of the specification, \<^emph>\<open>Node\<close>). A node owns a segment, has one of four
  kinds, an optional value (the nil interface when absent), a priority and its children
  in order. The flag \<^emph>\<open>hasWildcardChild\<close> is "true iff this node's sole child is a
  Parameter/CatchAll node", so it is computed from the children below. The pattern of a
  value is not kept in the node: in this package the wrapped value carries it.
\<close>

datatype kind = Static | Root | Parameter | CatchAll

datatype 'a node =
  Node (segment: string) (kind: kind) (nvalue: "'a iface") (priority: nat) (children: "'a node list")

text \<open>
  Modelled from the spec: the pattern grammar of \<^verbatim>\<open>node.addRoute\<close> (section 4.2: "parses
  pattern into a sequence of literal runs and wildcard segments"). The sigils are those
  of the package comment of \<^verbatim>\<open>router.go\<close>: \<^verbatim>\<open>:name\<close> is a named parameter and extends to
  the next \<^verbatim>\<open>/\<close> or the end, \<^verbatim>\<open>*name\<close> is a catch-all and extends to the end. A catch-all
  captures "the entire remaining path (including a leading \<^verbatim>\<open>/\<close>)" (section 4.3), so the
  separator in front of it belongs to the catch-all piece and not to the literal run.
\<close>

datatype piece = Lit string | Wild string

definition isSigil :: "char \<Rightarrow> bool" where
  "isSigil c = (c = CHR '':'' \<or> c = CHR ''*'')"

definition notSlash :: "char \<Rightarrow> bool" where
  "notSlash c = (c \<noteq> CHR ''/'')"

function pieces :: "string \<Rightarrow> piece list" where
  "pieces [] = []"
| "pieces (c # cs) =
     (if c = CHR '':'' then Wild (c # takeWhile notSlash cs) # pieces (dropWhile notSlash cs)
      else if c = CHR ''*'' then [Wild (c # cs)]
      else
        let lit = takeWhile (\<lambda>x. \<not> isSigil x) (c # cs);
            rest = dropWhile (\<lambda>x. \<not> isSigil x) (c # cs)
        in if rest \<noteq> [] \<and> hd rest = CHR ''*'' \<and> last lit = CHR ''/''
           then (if butlast lit = [] then [] else [Lit (butlast lit)]) @ [Wild (CHR ''/'' # rest)]
           else Lit lit # pieces rest)"
  by pat_completeness auto
termination
proof (relation "measure length")
  show "wf (measure length)" by simp
next
  fix c :: char and cs
  show "(dropWhile notSlash cs, c # cs) \<in> measure length"
    by (simp add: le_imp_less_Suc length_dropWhile_le)
next
  fix c :: char and cs x xa
  assume "c \<noteq> CHR '':''" "c \<noteq> CHR ''*''"
    and "xa = dropWhile (\<lambda>x. \<not> isSigil x) (c # cs)"
  then show "(xa, c # cs) \<in> measure length"
    by (simp add: isSigil_def le_imp_less_Suc length_dropWhile_le)
qed

text \<open>
  Modelled from the spec: "append a new child for the remainder" (section 4.2). The
  remainder becomes a chain of nodes, one for each piece, the value at its end; a
  catch-all anywhere but in the final segment is a fatal conflict.
\<close>

definition wildName :: "string \<Rightarrow> string" where
  "wildName w = tl (dropWhile (\<lambda>c. \<not> isSigil c) w)"

definition isParam :: "string \<Rightarrow> bool" where
  "isParam w = (w \<noteq> [] \<and> hd w = CHR '':'')"

fun mk :: "piece \<Rightarrow> 'a iface \<Rightarrow> 'a node list \<Rightarrow> 'a node" where
  "mk (Lit s) v chs = Node s Static v 1 chs"
| "mk (Wild w) v chs = Node w (if isParam w then Parameter else CatchAll) v 1 chs"

fun misplacedCatchAll :: "piece \<Rightarrow> bool \<Rightarrow> bool" where
  "misplacedCatchAll (Lit s) final = False"
| "misplacedCatchAll (Wild w) final =
     (\<not> isParam w \<and> (\<not> final \<or> CHR ''/'' \<in> set (wildName w)))"

fun chain :: "piece list \<Rightarrow> 'a iface \<Rightarrow> string + 'a node" where
  "chain [] v = Inl ''empty pattern''"
| "chain [p] v =
     (if misplacedCatchAll p True then Inl ''catch-all is only allowed at the end of the pattern''
      else Inr (mk p v []))"
| "chain (p # q # ps) v =
     (if misplacedCatchAll p False then Inl ''catch-all is only allowed at the end of the pattern''
      else case chain (q # ps) v of Inl e \<Rightarrow> Inl e | Inr c \<Rightarrow> Inr (mk p NilValue [c]))"

text \<open>
  Modelled from the spec: the descent of \<^verbatim>\<open>node.addRoute\<close> (section 4.2). \<open>insertBelow\<close>
  stands at a node whose segment the pattern has consumed; \<open>insertKids\<close> looks for the
  static child that shares the first byte with the literal run, splits it where the
  common prefix ends inside its segment, and goes on below it otherwise. Every node on
  the way gains one in priority, the siblings of a touched level are sorted again by
  descending priority (stable, a wildcard child last). The conflicts are those of the
  specification: a second value for the same pattern, a different wildcard or a literal
  where a wildcard child exists, a wildcard where static children exist.
\<close>

definition isWildNode :: "'a node \<Rightarrow> bool" where
  "isWildNode c = (kind c = Parameter \<or> kind c = CatchAll)"

definition hasWildcardChild :: "'a node list \<Rightarrow> bool" where
  "hasWildcardChild chs = (case chs of [c] \<Rightarrow> isWildNode c | _ \<Rightarrow> False)"

definition resort :: "'a node list \<Rightarrow> 'a node list" where
  "resort chs =
     sort_key (\<lambda>c. - int (priority c)) (filter (\<lambda>c. \<not> isWildNode c) chs) @ filter isWildNode chs"

fun lcp :: "string \<Rightarrow> string \<Rightarrow> nat" where
  "lcp (x # xs) (y # ys) = (if x = y then Suc (lcp xs ys) else 0)"
| "lcp _ _ = 0"

fun insertBelow :: "piece list \<Rightarrow> 'a iface \<Rightarrow> 'a node \<Rightarrow> string + 'a node"
  and insertKids :: "string \<Rightarrow> piece list \<Rightarrow> 'a iface \<Rightarrow> 'a node list \<Rightarrow> (string + 'a node list) option"
where
  "insertBelow [] v (Node seg k val pri chs) =
     (if val \<noteq> NilValue then Inl ''a value is already registered for this pattern''
      else Inr (Node seg k v (Suc pri) chs))"
| "insertBelow (Wild w # ps) v (Node seg k val pri chs) =
     (case chs of
        [] \<Rightarrow>
          (case chain (Wild w # ps) v of
             Inl e \<Rightarrow> Inl e
           | Inr c \<Rightarrow> Inr (Node seg k val (Suc pri) [c]))
      | [c] \<Rightarrow>
          if kind c = Parameter \<and> segment c = w then
            (case insertBelow ps v c of
               Inl e \<Rightarrow> Inl e
             | Inr c' \<Rightarrow> Inr (Node seg k val (Suc pri) [c']))
          else Inl ''wildcard conflicts with an existing child''
      | _ \<Rightarrow> Inl ''wildcard conflicts with existing children'')"
| "insertBelow (Lit s # ps) v (Node seg k val pri chs) =
     (if hasWildcardChild chs then Inl ''conflicts with an existing wildcard''
      else
        case insertKids s ps v chs of
          Some (Inl e) \<Rightarrow> Inl e
        | Some (Inr chs') \<Rightarrow> Inr (Node seg k val (Suc pri) (resort chs'))
        | None \<Rightarrow>
            (case chain (Lit s # ps) v of
               Inl e \<Rightarrow> Inl e
             | Inr c \<Rightarrow> Inr (Node seg k val (Suc pri) (resort (chs @ [c])))))"
| "insertKids s ps v [] = None"
| "insertKids s ps v (c # cs) =
     (if segment c \<noteq> [] \<and> s \<noteq> [] \<and> hd (segment c) = hd s then
        (let i = lcp s (segment c);
             rem = (if i = length s then ps else Lit (drop i s) # ps)
         in if i < length (segment c) then
              (let low = Node (drop i (segment c)) Static (nvalue c) (priority c) (children c)
               in case rem of
                    [] \<Rightarrow> Some (Inr (Node (take i (segment c)) (kind c) v (Suc (priority c)) [low] # cs))
                  | Wild w # _ \<Rightarrow> Some (Inl ''wildcard conflicts with existing children'')
                  | Lit _ # _ \<Rightarrow>
                      (case chain rem v of
                         Inl e \<Rightarrow> Some (Inl e)
                       | Inr n \<Rightarrow>
                           Some (Inr (Node (take i (segment c)) (kind c) NilValue (Suc (priority c))
                                        (resort [low, n]) # cs))))
            else
              (case insertBelow rem v c of
                 Inl e \<Rightarrow> Some (Inl e)
               | Inr c' \<Rightarrow> Some (Inr (c' # cs))))
      else
        (case insertKids s ps v cs of
           None \<Rightarrow> None
         | Some (Inl e) \<Rightarrow> Some (Inl e)
         | Some (Inr cs') \<Rightarrow> Some (Inr (c # cs'))))"

definition trie_addRoute :: "string \<Rightarrow> 'a iface \<Rightarrow> 'a node \<Rightarrow> string + 'a node" where
  "trie_addRoute path v n = insertBelow (pieces path) v n"

text \<open>
  Modelled from the spec: \<^verbatim>\<open>node.getValue\<close> (section 4.3). A static child is entered
  when its segment is a prefix of the remaining path, and the branch fails otherwise; a
  parameter captures the longest run of bytes other than \<^verbatim>\<open>/\<close>, a catch-all captures the
  rest. A miss raises the trailing-slash flag in the two situations that section 4.3
  words: the input ended at a node without value that "has exactly one child whose
  segment is \<^verbatim>\<open>/\<close> and which does hold a value", or the "remaining input is exactly \<^verbatim>\<open>/\<close> and
  the current node itself holds a value". Parameters are collected only when the caller
  supplies an allocator, and the \<^verbatim>\<open>*Params\<close> result is nil when nothing was captured (as
  \<^verbatim>\<open>TestRouterLookup\<close> expects of a static route).
\<close>

definition slashChildHasValue :: "'a node list \<Rightarrow> bool" where
  "slashChildHasValue chs =
     (case chs of [c] \<Rightarrow> segment c = ''/'' \<and> nvalue c \<noteq> NilValue | _ \<Rightarrow> False)"

fun below :: "'a node \<Rightarrow> string \<Rightarrow> Params \<Rightarrow> 'a iface \<times> Params \<times> bool"
  and walkKids :: "'a node list \<Rightarrow> string \<Rightarrow> Params \<Rightarrow> 'a iface \<times> Params \<times> bool"
where
  "below (Node seg k val pri chs) rest ps =
     (if rest = [] then
        (if val \<noteq> NilValue then (val, ps, False) else (NilValue, ps, slashChildHasValue chs))
      else
        case walkKids chs rest ps of
          (v, ps', t) \<Rightarrow>
            if v \<noteq> NilValue then (v, ps', t)
            else (NilValue, ps', t \<or> (rest = ''/'' \<and> val \<noteq> NilValue)))"
| "walkKids [] rest ps = (NilValue, ps, False)"
| "walkKids (c # cs) rest ps =
     (case kind c of
        Parameter \<Rightarrow>
          below c (dropWhile notSlash rest)
            (ps @ [Param (wildName (segment c)) (takeWhile notSlash rest)])
      | CatchAll \<Rightarrow>
          if hd (segment c) = CHR ''/'' \<and> hd rest \<noteq> CHR ''/'' then (NilValue, ps, False)
          else (nvalue c, ps @ [Param (wildName (segment c)) rest], False)
      | _ \<Rightarrow>
          if segment c \<noteq> [] \<and> hd (segment c) = hd rest then
            (if take (length (segment c)) rest = segment c
             then below c (drop (length (segment c)) rest) ps
             else (NilValue, ps, False))
          else walkKids cs rest ps)"

definition trie_getValue ::
  "'a node \<Rightarrow> string \<Rightarrow> 16 word option \<Rightarrow> 'a iface \<times> Params option \<times> bool" where
  "trie_getValue n path pn =
     (case below n path [] of
        (v, ps, t) \<Rightarrow> (v, if pn = None \<or> ps = [] then None else Some ps, t))"

text \<open>
  Modelled from the spec: \<^verbatim>\<open>countParams\<close> (section 4.5, "parameter count" of a pattern):
  the number of wildcard pieces of the pattern, converted to the \<^verbatim>\<open>uint16\<close> that
  \<^verbatim>\<open>Router.Add\<close> computes with.
\<close>

definition trie_countParams :: "string \<Rightarrow> 16 word" where
  "trie_countParams path = of_nat (length (filter (\<lambda>p. case p of Wild _ \<Rightarrow> True | Lit _ \<Rightarrow> False) (pieces path)))"

text \<open>
  Modelled from the spec: \<^verbatim>\<open>node.findCaseInsensitivePath\<close> (section 4.4). A depth-first
  walk that compares segments ignoring the case of ASCII letters, may try several
  siblings, and rebuilds the path from the stored segments; when it fails and the
  adjustment is allowed it is run once more with the trailing slash toggled.
\<close>

definition toLower :: "char \<Rightarrow> char" where
  "toLower c =
     (let n = of_char c :: nat in if 65 \<le> n \<and> n \<le> 90 then char_of (n + 32) else c)"

definition sameFold :: "string \<Rightarrow> string \<Rightarrow> bool" where
  "sameFold a b = (map toLower a = map toLower b)"

fun ciBelow :: "'a node \<Rightarrow> string \<Rightarrow> string \<Rightarrow> string option"
  and ciKids :: "'a node list \<Rightarrow> string \<Rightarrow> string \<Rightarrow> string option"
where
  "ciBelow (Node seg k val pri chs) rest acc =
     (if rest = [] then (if val \<noteq> NilValue then Some acc else None)
      else ciKids chs rest acc)"
| "ciKids [] rest acc = None"
| "ciKids (c # cs) rest acc =
     (case (case kind c of
              Parameter \<Rightarrow>
                ciBelow c (dropWhile notSlash rest) (acc @ takeWhile notSlash rest)
            | CatchAll \<Rightarrow>
                if (hd (segment c) = CHR ''/'' \<and> hd rest \<noteq> CHR ''/'') \<or> nvalue c = NilValue
                then None else Some (acc @ rest)
            | _ \<Rightarrow>
                if length (segment c) \<le> length rest
                   \<and> sameFold (take (length (segment c)) rest) (segment c)
                then ciBelow c (drop (length (segment c)) rest) (acc @ segment c)
                else None) of
        Some p \<Rightarrow> Some p
      | None \<Rightarrow> ciKids cs rest acc)"

definition trie_findCaseInsensitivePath :: "'a node \<Rightarrow> string \<Rightarrow> bool \<Rightarrow> string \<times> bool" where
  "trie_findCaseInsensitivePath n path fixTrailingSlash =
     (case ciBelow n path [] of
        Some p \<Rightarrow> (p, True)
      | None \<Rightarrow>
          if fixTrailingSlash then
            (case ciBelow n (toggleSlash path) [] of
               Some p \<Rightarrow> (p, True)
             | None \<Rightarrow> ([], False))
          else ([], False))"

text \<open>
  Modelled from the spec: \<^verbatim>\<open>CleanPath\<close> (section 4.1). An empty path or one that does
  not begin with \<^verbatim>\<open>/\<close> yields \<^verbatim>\<open>/\<close>; empty and \<^verbatim>\<open>.\<close> segments are dropped, \<^verbatim>\<open>..\<close> pops the
  segment before it and never leaves the root; a trailing separator is kept.
\<close>

definition fields :: "string \<Rightarrow> string list" where
  "fields s =
     foldr (\<lambda>c acc. if c = CHR ''/'' then [] # acc else (c # hd acc) # tl acc) s [[]]"

fun resolve :: "string list \<Rightarrow> string list \<Rightarrow> string list" where
  "resolve [] st = rev st"
| "resolve (s # ss) st =
     (if s = [] \<or> s = ''.'' then resolve ss st
      else if s = ''..'' then resolve ss (tl st)
      else resolve ss (s # st))"

definition trie_CleanPath :: "string \<Rightarrow> string" where
  "trie_CleanPath p =
     (if p = [] \<or> hd p \<noteq> CHR ''/'' then ''/''
      else
        let segs = resolve (fields p) []
        in if segs = [] then ''/''
           else concat (map (\<lambda>s. CHR ''/'' # s) segs) @ (if last p = CHR ''/'' then ''/'' else []))"

text \<open>
  Modelled from the spec: the engine that the five functions above make up, with
  \<^verbatim>\<open>new(node)\<close> as the empty root.
\<close>

definition trie :: "('a node, 'a) engine" where
  "trie =
     \<lparr>newNode = Node [] Root NilValue 0 [],
      addRoute = trie_addRoute,
      getValue = trie_getValue,
      findCaseInsensitivePath = trie_findCaseInsensitivePath,
      countParams = trie_countParams,
      CleanPath = trie_CleanPath\<rparr>"

section \<open>Runs of the router\<close>

text \<open>
  The redirect policy of \<^verbatim>\<open>match\<close> as section 4.5 of the specification words it: after a
  miss with the trailing-slash flag, and redirects enabled, the path with its trailing
  slash toggled; otherwise, with fixed-path correction enabled, the path that
  case-insensitive recovery finds for the cleaned path, when it finds one. \<open>None\<close> says
  that nothing is re-resolved. It reads the options only, so it applies to a \<^verbatim>\<open>Router\<close> and
  to a \<^verbatim>\<open>Pattern\<close>. It is compared with \<open>match\<close> below and is not part of it.
\<close>

definition redirectTarget ::
  "('n, 'a) engine \<Rightarrow> 'z Options_scheme \<Rightarrow> 'n \<Rightarrow> string \<Rightarrow> bool \<Rightarrow> string option" where
  "redirectTarget E r n path tsr =
     (if tsr \<and> redirectTrailingSlash r then Some (toggleSlash path)
      else if redirectFixedPath r then
        (case findCaseInsensitivePath E n (CleanPath E path) (redirectTrailingSlash r) of
           (fixedPath, found) \<Rightarrow> if found then Some fixedPath else None)
      else None)"



text \<open>
  A sequence of registrations. The option \<^verbatim>\<open>saveMatchedRoutePath\<close> is a field that code of
  the package can set between two calls (the tests do), so every call carries the mode
  it runs in. A panic ends the sequence.
\<close>

fun AddAll ::
  "('n, 'a) engine \<Rightarrow> 'n Router \<Rightarrow> (bool \<times> string \<times> string \<times> 'a iface) list \<Rightarrow> panic + 'n Router" where
  "AddAll E r [] = Inr r"
| "AddAll E r ((save, method, path, v) # calls) =
     (case Add E (r\<lparr>saveMatchedRoutePath := save\<rparr>) method path v of
        Inl e \<Rightarrow> Inl e
      | Inr r' \<Rightarrow> AddAll E r' calls)"

text \<open>
  Routers that the statements below evaluate on the engine of the previous section: the
  registrations of the tests, with the same kinds of values (strings).
\<close>

definition getRouter :: "string node Router" where
  "getRouter = projr (Add trie (New []) ''GET'' ''/foo'' (UserValue ''handle1''))"

definition connectRouter :: "string node Router" where
  "connectRouter = projr (Add trie (New []) ''CONNECT'' ''/foo'' (UserValue ''handle1''))"

definition fooPattern :: "string node Pattern" where
  "fooPattern = projr (Pattern_Add trie (NewPattern trie []) ''/foo'' (UserValue ''handle1''))"

definition savedRouter :: "string node Router" where
  "savedRouter =
     projr (Add trie (New [WithSaveMatchedRoutePath]) ''GET'' ''/user/:name'' (UserValue ''handle1''))"

definition lateSaveRouter :: "string node Router" where
  "lateSaveRouter =
     (projr (Add trie (New []) ''GET'' ''/user/:name'' (UserValue ''handle1'')))\<lparr>saveMatchedRoutePath := True\<rparr>"


text \<open>
  A pattern of 65535 parameter segments: \<^verbatim>\<open>/:a/:a/.../:a\<close>.
\<close>

definition manyParams :: string where
  "manyParams = concat (replicate 65535 ''/:a'')"

section \<open>Parameter access\<close>

lemma Params_Param_miss: "\<forall>p \<in> set ps. Key p \<noteq> name \<Longrightarrow> Params_Param ps name = []"
  by (induction ps) auto

lemma Params_Param_hit:
  "i < length ps \<Longrightarrow> Key (ps ! i) = name \<Longrightarrow> \<forall>j < i. Key (ps ! j) \<noteq> name \<Longrightarrow>
     Params_Param ps name = Value (ps ! i)"
proof (induction ps arbitrary: i)
  case Nil
  then show ?case by simp
next
  case (Cons p ps)
  show ?case
  proof (cases i)
    case 0
    with Cons.prems show ?thesis by simp
  next
    case (Suc k)
    from Cons.prems(3) Suc have "Key p \<noteq> name" by auto
    moreover have "Params_Param ps name = Value (ps ! k)"
    proof (rule Cons.IH)
      show "k < length ps" using Cons.prems(1) Suc by simp
      show "Key (ps ! k) = name" using Cons.prems(2) Suc by simp
      show "\<forall>j < k. Key (ps ! j) \<noteq> name"
      proof (intro allI impI)
        fix j assume "j < k"
        then have "Suc j < i" using Suc by simp
        with Cons.prems(3) have "Key ((p # ps) ! Suc j) \<noteq> name" by blast
        then show "Key (ps ! j) \<noteq> name" by simp
      qed
    qed
    ultimately show ?thesis using Suc by simp
  qed
qed

text \<open>
  Claim C4. For every parameter list \<open>ps\<close> and every key \<open>name\<close>, \<^verbatim>\<open>ps.Param(name)\<close> is the
  value of the first pair whose key is \<open>name\<close> (the pair at index \<open>i\<close>, no pair before it
  having that key), and the empty string when no pair has that key.
\<close>

theorem Params_Param_first:
  "(i < length ps \<and> Key (ps ! i) = name \<and> (\<forall>j < i. Key (ps ! j) \<noteq> name)
      \<longrightarrow> Params_Param ps name = Value (ps ! i))
   \<and> ((\<forall>p \<in> set ps. Key p \<noteq> name) \<longrightarrow> Params_Param ps name = [])"
  using Params_Param_hit [of i ps name] Params_Param_miss [of ps name] by blast

text \<open>A list with a repeated key: the first pair wins, and an unknown key yields the empty string.\<close>

theorem Params_Param_first_witness:
  "Params_Param
     [Param ''param1'' ''value1'', Param ''param2'' ''value2'', Param ''param2'' ''other'']
     ''param2'' = ''value2''
   \<and> Params_Param
     [Param ''param1'' ''value1'', Param ''param2'' ''value2'', Param ''param2'' ''other'']
     ''noKey'' = []"
  using
    Params_Param_first [of 1
      "[Param ''param1'' ''value1'', Param ''param2'' ''value2'', Param ''param2'' ''other'']"
      "''param2''"]
    Params_Param_first [of 0
      "[Param ''param1'' ''value1'', Param ''param2'' ''value2'', Param ''param2'' ''other'']"
      "''noKey''"]
  by simp

section \<open>Registration\<close>

lemma Add_nonempty_method: "method \<noteq> [] \<Longrightarrow> Add E r method path v \<noteq> Inl MethodEmpty"
  by (simp add: Add_def Let_def split: sum.splits)

lemma thenAdd_nonempty_method:
  "x \<noteq> Inl MethodEmpty \<Longrightarrow> method \<noteq> [] \<Longrightarrow> thenAdd E x method path v \<noteq> Inl MethodEmpty"
  by (cases x) (simp_all add: Add_nonempty_method)

text \<open>
  Claim C9. \<^verbatim>\<open>Router.Add\<close> panics when the method string is empty, whatever the path and the
  value are (the check comes first). The verb shortcuts and \<^verbatim>\<open>Any\<close> pass the constants of
  \<^verbatim>\<open>net/http\<close>, which are not empty, so they never raise this panic.
\<close>

theorem Add_empty_method:
  "Add E r [] path v = Inl MethodEmpty
   \<and> GET E r path v \<noteq> Inl MethodEmpty \<and> HEAD E r path v \<noteq> Inl MethodEmpty
   \<and> OPTIONS E r path v \<noteq> Inl MethodEmpty \<and> POST E r path v \<noteq> Inl MethodEmpty
   \<and> PUT E r path v \<noteq> Inl MethodEmpty \<and> PATCH E r path v \<noteq> Inl MethodEmpty
   \<and> DELETE E r path v \<noteq> Inl MethodEmpty \<and> Any E r path v \<noteq> Inl MethodEmpty"
proof -
  have "Add E r [] path v = Inl MethodEmpty" by (simp add: Add_def)
  moreover have "Any E r path v \<noteq> Inl MethodEmpty"
    unfolding Any_def by (intro thenAdd_nonempty_method Add_nonempty_method) simp_all
  ultimately show ?thesis
    by (simp add: GET_def HEAD_def OPTIONS_def POST_def PUT_def PATCH_def DELETE_def
        Add_nonempty_method)
qed

text \<open>
  Claim C3. \<^verbatim>\<open>Add\<close>, on a \<^verbatim>\<open>Router\<close> and on a \<^verbatim>\<open>Pattern\<close>, panics when the pattern is empty or
  does not begin with \<^verbatim>\<open>/\<close>, and when the value is nil (on a \<^verbatim>\<open>Router\<close> the check of the
  method comes first and raises its own panic). With a pattern that begins with \<^verbatim>\<open>/\<close> and
  a value that is not nil, neither of the two panics is raised.
\<close>

theorem Add_preconditions:
  "(path = [] \<or> hd path \<noteq> CHR ''/''
      \<longrightarrow> Pattern_Add E p path v = Inl (PathNoSlash path)
        \<and> Add E r method path v = (if method = [] then Inl MethodEmpty else Inl (PathNoSlash path)))
   \<and> (path \<noteq> [] \<and> hd path = CHR ''/'' \<and> v = NilValue
      \<longrightarrow> Pattern_Add E p path v = Inl ValueNil
        \<and> Add E r method path v = (if method = [] then Inl MethodEmpty else Inl ValueNil))
   \<and> (path \<noteq> [] \<and> hd path = CHR ''/'' \<and> v \<noteq> NilValue
      \<longrightarrow> (\<forall>s. Pattern_Add E p path v \<noteq> Inl (PathNoSlash s)) \<and> Pattern_Add E p path v \<noteq> Inl ValueNil
        \<and> (\<forall>s. Add E r method path v \<noteq> Inl (PathNoSlash s)) \<and> Add E r method path v \<noteq> Inl ValueNil)"
  by (auto simp: Add_def Pattern_Add_def Let_def split: sum.splits)

text \<open>
  The calls of \<^verbatim>\<open>TestRouterInvalidInput\<close> and \<^verbatim>\<open>TestPatterInvalidInput\<close>, and a valid one.
\<close>

theorem Add_preconditions_witness:
  "Pattern_Add trie (NewPattern trie []) [] (UserValue ''handle'') = Inl (PathNoSlash [])
   \<and> Add trie (New []) ''GET'' ''noSlashRoot'' (UserValue ''handle'') = Inl (PathNoSlash ''noSlashRoot'')
   \<and> Add trie (New []) ''GET'' ''/'' (NilValue :: string iface) = Inl ValueNil
   \<and> Pattern_Add trie (NewPattern trie []) ''/'' (NilValue :: string iface) = Inl ValueNil
   \<and> Add trie (New []) ''GET'' ''/'' (UserValue ''handle'') \<noteq> Inl ValueNil
   \<and> Add trie (New []) ''GET'' ''/'' (UserValue ''handle'') \<noteq> Inl (PathNoSlash ''/'')"
  using
    Add_preconditions [of "[]" trie "NewPattern trie []" "UserValue ''handle''" "New []" "''GET''"]
    Add_preconditions [of "''noSlashRoot''" trie "NewPattern trie []" "UserValue ''handle''"
      "New []" "''GET''"]
    Add_preconditions [of "''/''" trie "NewPattern trie []" "NilValue :: string iface"
      "New []" "''GET''"]
    Add_preconditions [of "''/''" trie "NewPattern trie []" "UserValue ''handle''"
      "New []" "''GET''"]
  by simp

lemma Add_maxParams:
  assumes "Add E r method path v = Inr r'"
  shows "maxParams r \<le> maxParams r'"
    and "countParams E path + (if saveMatchedRoutePath r then 1 else 0) \<le> maxParams r'"
  using assms
  by (auto simp: Add_def Let_def split: if_splits sum.splits)

lemma Add_maxParams_nat:
  assumes "Add E r method path v = Inr r'"
    and "unat (countParams E path) + (if saveMatchedRoutePath r then 1 else 0) \<le> 65535"
  shows "unat (countParams E path) + (if saveMatchedRoutePath r then 1 else 0) \<le> unat (maxParams r')"
proof -
  let ?c = "countParams E path" and ?v = "(if saveMatchedRoutePath r then 1 else 0) :: 16 word"
  have v: "unat ?v = (if saveMatchedRoutePath r then 1 else 0)" by simp
  have "unat ?c + unat ?v < 2 ^ LENGTH(16)" using assms(2) v by simp
  then have "unat (?c + ?v) = unat ?c + unat ?v" by (rule iffD1 [OF unat_add_lem])
  moreover have "unat (?c + ?v) \<le> unat (maxParams r')"
    using Add_maxParams(2) [OF assms(1)] by (simp add: word_le_nat_alt)
  ultimately show ?thesis using v by simp
qed

lemma AddAll_mono: "AddAll E r calls = Inr r' \<Longrightarrow> maxParams r \<le> maxParams r'"
proof (induction calls arbitrary: r)
  case Nil
  then show ?case by simp
next
  case (Cons c calls)
  obtain save m p v where c: "c = (save, m, p, v)" by (cases c) auto
  from Cons.prems c obtain r1 where
    a: "Add E (r\<lparr>saveMatchedRoutePath := save\<rparr>) m p v = Inr r1"
    and b: "AddAll E r1 calls = Inr r'"
    by (auto split: sum.splits)
  have "maxParams r \<le> maxParams r1" using Add_maxParams(1) [OF a] by simp
  also have "\<dots> \<le> maxParams r'" using Cons.IH [OF b] .
  finally show ?case .
qed

text \<open>
  Claim C7, as amended. After every sequence of successful \<^verbatim>\<open>Add\<close> calls \<^verbatim>\<open>maxParams\<close> has
  not decreased, and it is at least the parameter count of every registered pattern,
  plus one for a pattern registered in save-matched-route-path mode, provided that this sum
  fits the \<^verbatim>\<open>uint16\<close> field (is at most 65535).
\<close>

theorem maxParams_bound:
  "AddAll E r calls = Inr r' \<Longrightarrow>
     maxParams r \<le> maxParams r'
     \<and> (\<forall>(save, method, path, v) \<in> set calls.
          unat (countParams E path) + (if save then 1 else 0) \<le> 65535
          \<longrightarrow> unat (countParams E path) + (if save then 1 else 0) \<le> unat (maxParams r'))"
proof (induction calls arbitrary: r)
  case Nil
  then show ?case by simp
next
  case (Cons c calls)
  obtain save m p v where c: "c = (save, m, p, v)" by (cases c) auto
  from Cons.prems c obtain r1 where
    a: "Add E (r\<lparr>saveMatchedRoutePath := save\<rparr>) m p v = Inr r1"
    and b: "AddAll E r1 calls = Inr r'"
    by (auto split: sum.splits)
  have m1: "maxParams r1 \<le> maxParams r'" using AddAll_mono [OF b] .
  have "maxParams r \<le> maxParams r1" using Add_maxParams(1) [OF a] by simp
  then have mono: "maxParams r \<le> maxParams r'" using m1 by simp
  have here: "unat (countParams E p) + (if save then 1 else 0) \<le> unat (maxParams r')"
    if "unat (countParams E p) + (if save then 1 else 0) \<le> 65535"
  proof -
    have "unat (countParams E p) + (if save then 1 else 0) \<le> unat (maxParams r1)"
      using Add_maxParams_nat [OF a] that by simp
    also have "\<dots> \<le> unat (maxParams r')" using m1 by (simp add: word_le_nat_alt)
    finally show ?thesis .
  qed
  from Cons.IH [OF b] have rest:
    "\<forall>(save, method, path, v) \<in> set calls.
          unat (countParams E path) + (if save then 1 else 0) \<le> 65535
          \<longrightarrow> unat (countParams E path) + (if save then 1 else 0) \<le> unat (maxParams r')"
    by blast
  show ?case using mono here rest c by auto
qed

text \<open>
  Two registrations, the second one in save-matched-route-path mode.
\<close>

theorem maxParams_bound_witness:
  "unat (maxParams (projr (AddAll trie (New [])
      [(False, ''GET'', ''/user/:name/:id'', UserValue ''handle1''),
       (True, ''POST'', ''/files/*rest'', UserValue ''handle2'')]))) = 2
   \<and> unat (countParams (trie :: (string node, string) engine) ''/user/:name/:id'') + 0 \<le> 2
   \<and> unat (countParams (trie :: (string node, string) engine) ''/files/*rest'') + 1 \<le> 2"
proof -
  let ?calls = "[(False, ''GET'', ''/user/:name/:id'', UserValue ''handle1''),
       (True, ''POST'', ''/files/*rest'', UserValue ''handle2'')]"
  let ?E = "trie :: (string node, string) engine"
  let ?r' = "projr (AddAll ?E (New []) ?calls)"
  have "\<not> isl (AddAll ?E (New []) ?calls)" by code_simp
  then have a: "AddAll ?E (New []) ?calls = Inr ?r'" by simp
  have m: "unat (maxParams ?r') = 2" by code_simp
  have c1: "unat (countParams ?E ''/user/:name/:id'') = 2" by code_simp
  have c2: "unat (countParams ?E ''/files/*rest'') = 1" by code_simp
  from maxParams_bound [OF a] m c1 c2 show ?thesis by simp
qed

lemma pieces_param_segment:
  "rest = [] \<or> hd rest = CHR ''/'' \<Longrightarrow> pieces (''/:a'' @ rest) = Lit ''/'' # Wild '':a'' # pieces rest"
  by (cases rest) (auto simp: isSigil_def notSlash_def)

lemma pieces_many:
  "pieces (concat (replicate n ''/:a'')) = concat (replicate n [Lit ''/'', Wild '':a''])"
proof (induction n)
  case 0
  then show ?case by simp
next
  case (Suc n)
  have "concat (replicate n ''/:a'') = [] \<or> hd (concat (replicate n ''/:a'')) = CHR ''/''"
    by (cases n) simp_all
  from pieces_param_segment [OF this] Suc.IH show ?case by simp
qed

lemma chain_params:
  "n \<noteq> 0 \<Longrightarrow> \<exists>c. chain (concat (replicate n [Lit ''/'', Wild '':a''])) v = Inr c"
proof (induction n)
  case 0
  then show ?case by simp
next
  case (Suc n)
  show ?case
  proof (cases n)
    case 0
    then show ?thesis by (simp add: isParam_def)
  next
    case (Suc k)
    with Suc.IH obtain c where
      c: "chain (concat (replicate n [Lit ''/'', Wild '':a''])) v = Inr c" by auto
    have "concat (replicate n [Lit ''/'', Wild '':a'']) =
        Lit ''/'' # Wild '':a'' # concat (replicate k [Lit ''/'', Wild '':a''])"
      using Suc by simp
    with c show ?thesis by (simp add: isParam_def)
  qed
qed

lemma count_many:
  "length (filter (\<lambda>p. case p of Wild _ \<Rightarrow> True | Lit _ \<Rightarrow> False)
     (concat (replicate n [Lit ''/'', Wild '':a'']))) = n"
  by (induction n) simp_all

lemma manyParams_head: "manyParams \<noteq> [] \<and> hd manyParams = CHR ''/''"
proof -
  have "(65535::nat) = Suc 65534" by simp
  then have "manyParams = ''/:a'' @ concat (replicate 65534 ''/:a'')"
    unfolding manyParams_def by (simp only: replicate_Suc concat.simps)
  then obtain rest where "manyParams = CHR ''/'' # rest" by simp
  then show ?thesis by (metis list.distinct(1) list.sel(1))
qed

text \<open>
  The claim as stated, without the bound, fails: in save-matched-route-path mode a pattern
  of 65535 parameters is registered without a panic, \<^verbatim>\<open>paramsCount+varsCount\<close> wraps to 0,
  and \<^verbatim>\<open>maxParams\<close> stays 0.
\<close>

theorem maxParams_bound_counterexample:
  "\<not> isl (Add trie (New [WithSaveMatchedRoutePath]) ''GET'' manyParams (UserValue ''handle1''))
   \<and> unat (countParams (trie :: (string node, string) engine) manyParams) = 65535
   \<and> maxParams (projr (Add trie (New [WithSaveMatchedRoutePath]) ''GET'' manyParams
        (UserValue ''handle1''))) = 0"
proof -
  let ?E = "trie :: (string node, string) engine"
  let ?r = "New [WithSaveMatchedRoutePath] :: string node Router"
  let ?v = "MatchValue manyParams (UserValue ''handle1'')"
  have p: "pieces manyParams = concat (replicate 65535 [Lit ''/'', Wild '':a''])"
    unfolding manyParams_def by (rule pieces_many)
  have cnt: "countParams ?E manyParams = 65535"
    by (simp only: trie_def engine.simps trie_countParams_def p count_many) simp
  have "(65535::nat) \<noteq> 0" by simp
  from chain_params [OF this] obtain c where
    c: "chain (concat (replicate 65535 [Lit ''/'', Wild '':a''])) ?v = Inr c" by blast
  have "(65535::nat) = Suc 65534" by simp
  then have shape: "concat (replicate 65535 [Lit ''/'', Wild '':a'']) =
      Lit ''/'' # Wild '':a'' # concat (replicate 65534 [Lit ''/'', Wild '':a''])"
    by (simp only: replicate_Suc concat.simps append.simps)
  have ins: "addRoute ?E manyParams ?v (newNode ?E) = Inr (Node [] Root NilValue (Suc 0) (resort [c]))"
    using c unfolding shape
    by (simp add: trie_def trie_addRoute_def p shape hasWildcardChild_def del: chain.simps)
  have r: "saveMatchedRoutePath ?r \<and> trees ?r ''GET'' = None \<and> maxParams ?r = 0"
    by (simp add: New_def WithSaveMatchedRoutePath_def)
  have add: "Add ?E ?r ''GET'' manyParams (UserValue ''handle1'') =
      Inr (?r\<lparr>trees := (trees ?r)(''GET'' \<mapsto> Node [] Root NilValue (Suc 0) (resort [c])),
               paramsNew := paramsNew ?r, maxParams := 0\<rparr>)"
    using manyParams_head r ins cnt
    by (simp add: Add_def Let_def)
  show ?thesis by (simp add: add cnt)
qed

section \<open>Matching\<close>

text \<open>
  Claim C10. When the method is \<^verbatim>\<open>CONNECT\<close> or the path is exactly \<^verbatim>\<open>/\<close>, a miss of the
  lookup makes \<^verbatim>\<open>match\<close> (so \<^verbatim>\<open>Match\<close>) return (nil, nil, false) at once, whatever the
  redirect options and the trailing-slash flag are; \<^verbatim>\<open>Pattern.MatchURL\<close> does the same for
  the path \<^verbatim>\<open>/\<close>. One invocation suffices: nothing is re-resolved.
\<close>

theorem match_no_redirect:
  "(trees r method = Some n \<and> fst (getValue E n path pn) = NilValue
      \<and> (method = ''CONNECT'' \<or> path = ''/'')
      \<longrightarrow> match E r (Suc fuel) pn method path = Some (Inr (NilValue, None, False)))
   \<and> (trees r method = Some n \<and> fst (getValue E n path (paramsNewOf r)) = NilValue
      \<and> (method = ''CONNECT'' \<or> path = ''/'')
      \<longrightarrow> Match E r (Suc fuel) method path = Some (Inr (NilValue, None, False)))
   \<and> (fst (getValue E (root p) ''/'' None) = NilValue
      \<longrightarrow> Pattern_MatchURL E p (Suc fuel) ''/'' = Some (Inr (NilValue, [], False)))"
  by (auto simp: Match_def split: prod.splits)

text \<open>
  A \<^verbatim>\<open>CONNECT\<close> request for \<^verbatim>\<open>/foo/\<close> where \<^verbatim>\<open>/foo\<close> is registered, and requests for \<^verbatim>\<open>/\<close> where
  only \<^verbatim>\<open>/foo\<close> is registered.
\<close>

theorem match_no_redirect_witness:
  "match trie connectRouter (Suc 0) None ''CONNECT'' ''/foo/'' = Some (Inr (NilValue, None, False))
   \<and> Match trie connectRouter (Suc 0) ''CONNECT'' ''/foo/'' = Some (Inr (NilValue, None, False))
   \<and> Match trie getRouter (Suc 0) ''GET'' ''/'' = Some (Inr (NilValue, None, False))
   \<and> Pattern_MatchURL trie fooPattern (Suc 0) ''/'' = Some (Inr (NilValue, [], False))"
proof -
  let ?n = "Node [] Root NilValue 1 [Node ''/foo'' Static (UserValue ''handle1'') 1 []]"
  have t: "trees connectRouter ''CONNECT'' = Some ?n" by code_simp
  have g: "fst (getValue trie ?n ''/foo/'' None) = NilValue" by code_simp
  have g': "fst (getValue trie ?n ''/foo/'' (paramsNewOf connectRouter)) = NilValue" by code_simp
  have t2: "trees getRouter ''GET'' = Some ?n" by code_simp
  have g2: "fst (getValue trie ?n ''/'' (paramsNewOf getRouter)) = NilValue" by code_simp
  have g3: "fst (getValue trie (root fooPattern) ''/'' None) = NilValue" by code_simp
  show ?thesis
    using
      match_no_redirect [of connectRouter "''CONNECT''" ?n trie "''/foo/''" None 0 fooPattern]
      match_no_redirect [of getRouter "''GET''" ?n trie "''/''" None 0 fooPattern]
      t g g' t2 g2 g3
    by simp
qed

lemma match_unmatched:
  "match E r fuel pn method path = Some (Inr (v, ps, False)) \<Longrightarrow> v = NilValue \<and> ps = None"
proof (induction fuel arbitrary: pn path)
  case 0
  then show ?case by simp
next
  case (Suc fuel)
  show ?case
  proof (cases "trees r method")
    case None
    with Suc.prems show ?thesis by simp
  next
    case (Some n)
    obtain v0 ps0 tsr where g: "getValue E n path pn = (v0, ps0, tsr)"
      by (cases "getValue E n path pn") auto
    show ?thesis
    proof (cases "v0 = NilValue")
      case False
      with Suc.prems Some g show ?thesis
        by (auto split: if_splits iface.splits option.splits)
    next
      case True
      obtain fp found where f:
        "findCaseInsensitivePath E n (CleanPath E path) (redirectTrailingSlash r) = (fp, found)"
        by (cases "findCaseInsensitivePath E n (CleanPath E path) (redirectTrailingSlash r)") auto
      from Suc.prems Some g True f show ?thesis
        by (auto split: if_splits dest: Suc.IH)
    qed
  qed
qed

text \<open>
  Claim C5. A lookup that finds no value is a normal result. Without a tree for the
  method, \<^verbatim>\<open>Lookup\<close> and \<^verbatim>\<open>match\<close> return (nil, nil, false). With a tree, when the lookup
  finds no value and raises no trailing-slash flag, \<^verbatim>\<open>Lookup\<close> returns (nil, nil, false), and
  so does \<^verbatim>\<open>match\<close> when the policy has no path to re-resolve. Whenever \<^verbatim>\<open>match\<close> returns
  unmatched, the value is nil and the parameters are nil.
\<close>

theorem no_match_result:
  "(trees r method = None
      \<longrightarrow> fst (Lookup E r method path) = (NilValue, None, False)
        \<and> match E r (Suc fuel) pn method path = Some (Inr (NilValue, None, False)))
   \<and> (trees r method = Some n \<and> getValue E n path (paramsNewOf r) = (NilValue, ps, False)
      \<longrightarrow> fst (Lookup E r method path) = (NilValue, None, False))
   \<and> (trees r method = Some n \<and> getValue E n path pn = (NilValue, ps, False)
        \<and> redirectTarget E r n path False = None
      \<longrightarrow> match E r (Suc fuel) pn method path = Some (Inr (NilValue, None, False)))
   \<and> (match E r fuel pn method path = Some (Inr (v, ps', False)) \<longrightarrow> v = NilValue \<and> ps' = None)"
proof -
  have "match E r fuel pn method path = Some (Inr (v, ps', False)) \<longrightarrow> v = NilValue \<and> ps' = None"
    using match_unmatched [of E r fuel pn _ _ v ps'] by blast
  moreover have "trees r method = Some n \<and> getValue E n path pn = (NilValue, ps, False)
        \<and> redirectTarget E r n path False = None
      \<longrightarrow> match E r (Suc fuel) pn method path = Some (Inr (NilValue, None, False))"
    by (auto simp: redirectTarget_def split: prod.splits if_splits)
  ultimately show ?thesis
    by (simp add: Lookup_def)
qed

text \<open>
  A method without tree, and a path that nothing registered resembles.
\<close>

theorem no_match_result_witness:
  "fst (Lookup trie getRouter ''POST'' ''/foo'') = (NilValue, None, False)
   \<and> Match trie getRouter (Suc 0) ''POST'' ''/foo'' = Some (Inr (NilValue, None, False))
   \<and> fst (Lookup trie getRouter ''GET'' ''/nope'') = (NilValue, None, False)
   \<and> Match trie getRouter (Suc 0) ''GET'' ''/nope'' = Some (Inr (NilValue, None, False))"
proof -
  let ?n = "Node [] Root NilValue 1 [Node ''/foo'' Static (UserValue ''handle1'') 1 []]"
  have a: "trees getRouter ''POST'' = None" by code_simp
  have b: "trees getRouter ''GET'' = Some ?n" by code_simp
  have c: "getValue trie ?n ''/nope'' (paramsNewOf getRouter) = (NilValue, None, False)"
    by code_simp
  have d: "redirectTarget trie getRouter ?n ''/nope'' False = None" by code_simp
  show ?thesis
    using
      no_match_result [of getRouter "''POST''" trie "''/foo''" 0 "paramsNewOf getRouter"]
      no_match_result [of getRouter "''GET''" trie "''/nope''" 0 "paramsNewOf getRouter" ?n None]
      a b c d
    by (simp add: Match_def)
qed

text \<open>
  Claim C2. In save-matched-route-path mode \<^verbatim>\<open>Add\<close> hands the tree the pair of the pattern
  and the value; a match on a wrapped value returns the value itself and the captured
  parameters followed by the pair (\<^verbatim>\<open>MatchedRoutePathParam\<close>, pattern); a match on a value
  that is not wrapped panics.
\<close>

theorem save_matched_route_path:
  "(saveMatchedRoutePath r \<and> Add E r method path v = Inr r'
      \<longrightarrow> (\<exists>n'. addRoute E path (MatchValue path v)
                  (case trees r method of None \<Rightarrow> newNode E | Some n \<Rightarrow> n) = Inr n'
                \<and> trees r' method = Some n'))
   \<and> (saveMatchedRoutePath r \<and> trees r method = Some n
        \<and> getValue E n path pn = (MatchValue mp vv, ps, tsr)
      \<longrightarrow> match E r (Suc fuel) pn method path =
            Some (Inr (vv, Some (slice ps @ [Param MatchedRoutePathParam mp]), True)))
   \<and> (saveMatchedRoutePath r \<and> trees r method = Some n
        \<and> getValue E n path pn = (UserValue u, ps, tsr)
      \<longrightarrow> match E r (Suc fuel) pn method path = Some (Inl NotMatchValue))"
proof -
  have "saveMatchedRoutePath r \<and> Add E r method path v = Inr r'
      \<longrightarrow> (\<exists>n'. addRoute E path (MatchValue path v)
                  (case trees r method of None \<Rightarrow> newNode E | Some n \<Rightarrow> n) = Inr n'
                \<and> trees r' method = Some n')"
    by (auto simp: Add_def Let_def split: if_splits sum.splits)
  moreover have "saveMatchedRoutePath r \<and> trees r method = Some n
        \<and> getValue E n path pn = (MatchValue mp vv, ps, tsr)
      \<longrightarrow> match E r (Suc fuel) pn method path =
            Some (Inr (vv, Some (slice ps @ [Param MatchedRoutePathParam mp]), True))"
    by (cases ps) auto
  moreover have "saveMatchedRoutePath r \<and> trees r method = Some n
        \<and> getValue E n path pn = (UserValue u, ps, tsr)
      \<longrightarrow> match E r (Suc fuel) pn method path = Some (Inl NotMatchValue)"
    by auto
  ultimately show ?thesis by blast
qed

text \<open>
  The routes of \<^verbatim>\<open>TestRouterMatchedRoutePath\<close> and of
  \<^verbatim>\<open>TestRouterEnableSaveMatchedRouterPathPanicShouldNotHappen\<close>.
\<close>

theorem save_matched_route_path_witness:
  "trees savedRouter ''GET'' =
     Some (Node [] Root NilValue 1
            [Node ''/user/'' Static NilValue 1
              [Node '':name'' Parameter (MatchValue ''/user/:name'' (UserValue ''handle1'')) 1 []]])
   \<and> Match trie savedRouter (Suc 0) ''GET'' ''/user/gopher'' =
       Some (Inr (UserValue ''handle1'',
         Some [Param ''name'' ''gopher'', Param MatchedRoutePathParam ''/user/:name''], True))
   \<and> Match trie lateSaveRouter (Suc 0) ''GET'' ''/user/gopher'' = Some (Inl NotMatchValue)"
proof -
  let ?r0 = "New [WithSaveMatchedRoutePath] :: string node Router"
  let ?n = "Node [] Root NilValue 1
            [Node ''/user/'' Static NilValue 1
              [Node '':name'' Parameter (MatchValue ''/user/:name'' (UserValue ''handle1'')) 1 []]]"
  let ?m = "Node [] Root NilValue 1
            [Node ''/user/'' Static NilValue 1
              [Node '':name'' Parameter (UserValue ''handle1'') 1 []]]"
  have s0: "saveMatchedRoutePath ?r0" by code_simp
  have "\<not> isl (Add trie ?r0 ''GET'' ''/user/:name'' (UserValue ''handle1''))" by code_simp
  then have a: "Add trie ?r0 ''GET'' ''/user/:name'' (UserValue ''handle1'') = Inr savedRouter"
    by (simp add: savedRouter_def)
  have r0: "trees ?r0 ''GET'' = None" by code_simp
  have n0: "addRoute trie ''/user/:name'' (MatchValue ''/user/:name'' (UserValue ''handle1'')) (newNode trie)
              = Inr ?n" by code_simp
  have s1: "saveMatchedRoutePath savedRouter" by code_simp
  have t1: "trees savedRouter ''GET'' = Some ?n"
    using save_matched_route_path [of ?r0 trie "''GET''" "''/user/:name''"
        "UserValue ''handle1''" savedRouter]
      s0 a r0 n0 by simp
  have g1: "getValue trie ?n ''/user/gopher'' (paramsNewOf savedRouter) =
      (MatchValue ''/user/:name'' (UserValue ''handle1''), Some [Param ''name'' ''gopher''], False)"
    by code_simp
  have s2: "saveMatchedRoutePath lateSaveRouter" by code_simp
  have t2: "trees lateSaveRouter ''GET'' = Some ?m" by code_simp
  have g2: "getValue trie ?m ''/user/gopher'' (paramsNewOf lateSaveRouter) =
      (UserValue ''handle1'', Some [Param ''name'' ''gopher''], False)"
    by code_simp
  show ?thesis
    using
      save_matched_route_path [of savedRouter trie "''GET''" "''/user/gopher''" _ _ ?n
        "paramsNewOf savedRouter" "''/user/:name''" "UserValue ''handle1''"
        "Some [Param ''name'' ''gopher'']" False 0]
      save_matched_route_path [of lateSaveRouter trie "''GET''" "''/user/gopher''" _ _ ?m
        "paramsNewOf lateSaveRouter" _ _ "Some [Param ''name'' ''gopher'']" False 0
        "''handle1''"]
      s1 t1 g1 s2 t2 g2
    by (simp add: Match_def)
qed





text \<open>\<^verbatim>\<open>Pattern.MatchURL\<close> answers a miss with the same policy, for every path but \<^verbatim>\<open>/\<close>.\<close>

lemma Pattern_MatchURL_redirect:
  assumes "getValue E (root p) path None = (NilValue, ps, tsr)" and "path \<noteq> ''/''"
  shows "Pattern_MatchURL E p (Suc fuel) path =
           (case redirectTarget E p (root p) path tsr of
              None \<Rightarrow> Some (Inr (NilValue, [], False))
            | Some path' \<Rightarrow> Pattern_MatchURL E p fuel path')"
  using assms by (auto simp: redirectTarget_def split: prod.splits)





end
